theory Spec2Isabelle
  imports Main "HOL-Library.Word" "HOL-Library.Multiset"
begin

section \<open>kb-color: keyboard backlight control over hidraw\<close>

text \<open>
  A shallow embedding of \<^verbatim>\<open>kb-color.c\<close>. Bytes are \<open>8 word\<close>; the macros that C
  reads as \<open>int\<close> constants are \<open>int\<close> here, and every store into a \<open>uint8_t\<close> goes
  through \<open>word_of_int\<close>, which is the conversion C performs after the integer promotions.
  The operating system is a record \<open>world\<close>: the state file, the hidraw directory and a
  trace of the system calls that matter (device opens, feature transfers, state saves).
  Messages on stdout and stderr and the resolution of the state file's path from the
  environment are left out: the one state file of the world is the file at
  \<^verbatim>\<open>state_path()\<close>.
\<close>

subsection \<open>Constants\<close>

type_synonym uint8_t = "8 word"

definition VENDOR_ID :: "32 word" where "VENDOR_ID = 0x1044"
definition PRODUCT_ID :: "32 word" where "PRODUCT_ID = 0x7a3b"
definition USB_INPUT_IFACE :: string where "USB_INPUT_IFACE = ''input3''"
definition HID_BUS_USB :: "32 word" where "HID_BUS_USB = 0x0003"

definition PKT_SIZE :: nat where "PKT_SIZE = 9"
definition PKT_REPORT_ID :: int where "PKT_REPORT_ID = 0x00"
definition PKT_CMD :: int where "PKT_CMD = 0x08"
definition PKT_BYTE2 :: int where "PKT_BYTE2 = 0x00"
definition PKT_BYTE3 :: int where "PKT_BYTE3 = 0x01"
definition PKT_BYTE4 :: int where "PKT_BYTE4 = 0x01"
definition PKT_BYTE7 :: int where "PKT_BYTE7 = 0x01"
definition PKT_CHECKSUM_INIT :: int where "PKT_CHECKSUM_INIT = 0xff"
definition PKT_CHECKSUM_BYTES :: nat where "PKT_CHECKSUM_BYTES = 8"
definition PKT_BRIGHTNESS_DIV :: int where "PKT_BRIGHTNESS_DIV = 2"

definition COLOR_ID_OFF :: int where "COLOR_ID_OFF = 0x05"
definition COLOR_COUNT :: nat where "COLOR_COUNT = 7"

definition BRIGHTNESS_MIN :: int where "BRIGHTNESS_MIN = 0"
definition BRIGHTNESS_MAX :: int where "BRIGHTNESS_MAX = 100"

text \<open>\<^verbatim>\<open>PATH_MAX\<close> of \<^verbatim>\<open>limits.h\<close> on Linux: the size of the line buffer.\<close>

definition PATH_MAX :: nat where "PATH_MAX = 4096"

definition COLORS :: "(string \<times> uint8_t) list" where
  "COLORS =
     [(''red'', 1), (''green'', 2), (''yellow'', 3), (''blue'', 4),
      (''orange'', 5), (''purple'', 6), (''white'', 7)]"

record State =
  color_id :: uint8_t
  brightness :: uint8_t

subsection \<open>The control packet (first half of \<^verbatim>\<open>send_packet\<close>)\<close>

text \<open>
  The loop \<^verbatim>\<open>for (i = 0; i < PKT_CHECKSUM_BYTES; i++) sum += pkt[i]\<close>: the addition is
  done on \<open>int\<close> and stored back into the \<open>uint8_t\<close> \<open>sum\<close>.
\<close>

definition checksum_loop :: "uint8_t list \<Rightarrow> uint8_t" where
  "checksum_loop pkt =
     fold (\<lambda>i sum. word_of_int (uint sum + uint (pkt ! i))) [0..<PKT_CHECKSUM_BYTES] 0"

text \<open>
  Lines 126 to 138 of \<^verbatim>\<open>send_packet\<close>: the array \<open>pkt\<close> is filled index by index,
  every cell is written before it is read.
\<close>

definition build_pkt :: "uint8_t \<Rightarrow> uint8_t \<Rightarrow> uint8_t list" where
  "build_pkt cid br =
     (let pkt = replicate PKT_SIZE (0 :: uint8_t);
          pkt = pkt[0 := word_of_int PKT_REPORT_ID];
          pkt = pkt[1 := word_of_int PKT_CMD];
          pkt = pkt[2 := word_of_int PKT_BYTE2];
          pkt = pkt[3 := word_of_int PKT_BYTE3];
          pkt = pkt[4 := word_of_int PKT_BYTE4];
          pkt = pkt[5 := word_of_int (uint br div PKT_BRIGHTNESS_DIV)];
          pkt = pkt[6 := (if uint br > BRIGHTNESS_MIN then cid else word_of_int COLOR_ID_OFF)];
          pkt = pkt[7 := word_of_int PKT_BYTE7];
          sum = checksum_loop pkt
      in pkt[8 := word_of_int (PKT_CHECKSUM_INIT - uint sum)])"

subsection \<open>Colour names\<close>

text \<open>\<^verbatim>\<open>color_id_from_name\<close>: the first table entry with that name, 0 when there is none.\<close>

fun lookup_name :: "(string \<times> uint8_t) list \<Rightarrow> string \<Rightarrow> uint8_t" where
  "lookup_name [] name = 0"
| "lookup_name ((n, i) # rest) name = (if n = name then i else lookup_name rest name)"

definition color_id_from_name :: "string \<Rightarrow> uint8_t" where
  "color_id_from_name name = lookup_name (take COLOR_COUNT COLORS) name"

subsection \<open>The C library functions the program calls\<close>

definition isspace :: "char \<Rightarrow> bool" where
  "isspace c = (c \<in> set [CHR '' '', CHR 0x09, CHR 0x0A, CHR 0x0B, CHR 0x0C, CHR 0x0D])"

definition isdigit :: "char \<Rightarrow> bool" where
  "isdigit c = (48 \<le> (of_char c :: nat) \<and> (of_char c :: nat) \<le> 57)"

definition xdigit_val :: "char \<Rightarrow> nat option" where
  "xdigit_val c =
     (let n = (of_char c :: nat) in
      if 48 \<le> n \<and> n \<le> 57 then Some (n - 48)
      else if 65 \<le> n \<and> n \<le> 70 then Some (n - 55)
      else if 97 \<le> n \<and> n \<le> 102 then Some (n - 87)
      else None)"

text \<open>A line buffer is read as a C string: it ends at its first NUL.\<close>

definition c_str :: "string \<Rightarrow> string" where
  "c_str s = takeWhile (\<lambda>c. c \<noteq> CHR 0x00) s"

text \<open>
  \<^verbatim>\<open>atoi\<close> as glibc has it, \<^verbatim>\<open>(int) strtol(s, NULL, 10)\<close>: leading white space, one
  optional sign, the run of decimal digits; the value saturates at the bounds of a 64-bit
  \<open>long\<close> and is then cut to 32 bits.
\<close>

definition digits_val :: "string \<Rightarrow> int" where
  "digits_val ds = fold (\<lambda>c v. 10 * v + (int (of_char c) - 48)) ds 0"

definition atoi :: "string \<Rightarrow> int" where
  "atoi s =
     (let s1 = dropWhile isspace s;
          neg = (s1 \<noteq> [] \<and> hd s1 = CHR ''-'');
          s2 = (if s1 \<noteq> [] \<and> (hd s1 = CHR ''-'' \<or> hd s1 = CHR ''+'') then tl s1 else s1);
          v = digits_val (takeWhile isdigit s2);
          l = (if neg then max (- v) (- (2 ^ 63)) else min v (2 ^ 63 - 1))
      in sint (word_of_int l :: 32 word))"

text \<open>\<^verbatim>\<open>strstr\<close>: the suffix of the haystack at the first occurrence, or no pointer.\<close>

fun strstr :: "string \<Rightarrow> string \<Rightarrow> string option" where
  "strstr [] needle = (if needle = [] then Some [] else None)"
| "strstr (c # cs) needle =
     (if take (length needle) (c # cs) = needle then Some (c # cs) else strstr cs needle)"

text \<open>
  \<^verbatim>\<open>sscanf\<close> with the format \<^verbatim>\<open>HID_ID=%04X:%08X:%08X\<close>. An ordinary character of the
  format matches exactly that character of the input. A conversion \<^verbatim>\<open>%0wX\<close> skips white
  space and then reads a field of at most \<open>w\<close> characters: an optional sign, an optional
  \<^verbatim>\<open>0x\<close> and hexadecimal digits; no digit is a matching failure. The model returns the
  three values when all three conversions succeed, that is when \<^verbatim>\<open>sscanf\<close> returns 3.
\<close>

definition scan_literal :: "string \<Rightarrow> string \<Rightarrow> string option" where
  "scan_literal lit s =
     (if take (length lit) s = lit then Some (drop (length lit) s) else None)"

definition xdigits_val :: "string \<Rightarrow> nat" where
  "xdigits_val ds =
     fold (\<lambda>c v. 16 * v + (case xdigit_val c of Some d \<Rightarrow> d | None \<Rightarrow> 0)) ds 0"

definition scan_X :: "nat \<Rightarrow> string \<Rightarrow> (32 word \<times> string) option" where
  "scan_X width s =
     (let s0 = dropWhile isspace s;
          fld = take width s0;
          signed = (fld \<noteq> [] \<and> (hd fld = CHR ''-'' \<or> hd fld = CHR ''+''));
          neg = (fld \<noteq> [] \<and> hd fld = CHR ''-'');
          body = (if signed then tl fld else fld);
          prefixed = (length body \<ge> 2 \<and> body ! 0 = CHR ''0''
                      \<and> (body ! 1 = CHR ''x'' \<or> body ! 1 = CHR ''X''));
          body' = (if prefixed then drop 2 body else body);
          ds = takeWhile (\<lambda>c. xdigit_val c \<noteq> None) body';
          used = (if signed then 1 else 0) + (if prefixed then 2 else 0) + length ds;
          v = (word_of_nat (xdigits_val ds) :: 32 word)
      in if ds = [] then None else Some (if neg then - v else v, drop used s0))"

definition sscanf_HID_ID :: "string \<Rightarrow> (32 word \<times> 32 word \<times> 32 word) option" where
  "sscanf_HID_ID line =
     (case scan_literal ''HID_ID='' line of
        None \<Rightarrow> None
      | Some s1 \<Rightarrow>
     (case scan_X 4 s1 of
        None \<Rightarrow> None
      | Some (bus, s2) \<Rightarrow>
     (case scan_literal '':'' s2 of
        None \<Rightarrow> None
      | Some s3 \<Rightarrow>
     (case scan_X 8 s3 of
        None \<Rightarrow> None
      | Some (vid, s4) \<Rightarrow>
     (case scan_literal '':'' s4 of
        None \<Rightarrow> None
      | Some s5 \<Rightarrow>
     (case scan_X 8 s5 of
        None \<Rightarrow> None
      | Some (pid, s6) \<Rightarrow> Some (bus, vid, pid)))))))"

text \<open>
  \<^verbatim>\<open>fgets(line, n, f)\<close>: at most \<open>n - 1\<close> characters, stopping after a newline. The first
  component is what lands in the buffer, the second what is left of the stream.
\<close>

fun fgets :: "nat \<Rightarrow> string \<Rightarrow> string \<times> string" where
  "fgets k [] = ([], [])"
| "fgets k (c # s) =
     (if k = 0 then ([], c # s)
      else if c = CHR 0x0A then ([c], s)
      else (case fgets (k - 1) s of (l, r) \<Rightarrow> (c # l, r)))"

lemma fgets_append: "fgets k s = (l, r) \<Longrightarrow> s = l @ r"
  by (induction k s arbitrary: l r rule: fgets.induct) (auto split: if_splits prod.splits)

lemma fgets_progress: "0 < k \<Longrightarrow> s \<noteq> [] \<Longrightarrow> fgets k s = (l, r) \<Longrightarrow> length r < length s"
  by (cases s) (auto split: if_splits prod.splits dest: fgets_append)

text \<open>The lines \<^verbatim>\<open>while (fgets(line, sizeof(line), f))\<close> sees, until end of file.\<close>

function fgets_lines :: "string \<Rightarrow> string list" where
  "fgets_lines s =
     (if s = [] then []
      else (case fgets (PATH_MAX - 1) s of (l, r) \<Rightarrow> l # fgets_lines r))"
  by pat_completeness auto
termination
proof (relation "measure length")
  show "wf (measure length)" by simp
next
  fix s :: string and l r
  assume "s \<noteq> []" and "(l, r) = fgets (PATH_MAX - 1) s"
  then have "length r < length s"
    using fgets_progress [of "PATH_MAX - 1" s l r] by (simp add: PATH_MAX_def)
  then show "(r, s) \<in> measure length" by simp
qed

declare fgets_lines.simps [simp del]

subsection \<open>The world\<close>

text \<open>
  One entry of \<^verbatim>\<open>/sys/class/hidraw\<close> as \<^verbatim>\<open>readdir\<close> returns it, with what the
  program can observe of it: the text of its \<^verbatim>\<open>device/uevent\<close> file (\<open>None\<close> when
  \<^verbatim>\<open>fopen\<close> fails), whether \<^verbatim>\<open>open\<close> of its \<^verbatim>\<open>/dev\<close> node succeeds, and what the
  \<^verbatim>\<open>HIDIOCSFEATURE\<close> ioctl returns on it.
\<close>

record dir_entry =
  d_name :: string
  uevent :: "string option"
  dev_open :: bool
  ioctl_ret :: int

datatype event =
    OpenDev string bool
  | SetFeature string "uint8_t list" int
  | SaveState uint8_t uint8_t

text \<open>
  \<open>state_file\<close> is the content of the state file (\<open>None\<close> when it cannot be opened for
  reading), \<open>state_writable\<close> says whether \<^verbatim>\<open>fopen(state_path(), "wb")\<close> succeeds,
  \<open>hidraw_dir\<close> is the directory listing (\<open>None\<close> when \<^verbatim>\<open>opendir\<close> fails).
\<close>

record world =
  state_file :: "uint8_t list option"
  state_writable :: bool
  hidraw_dir :: "dir_entry list option"
  trace :: "event list"

subsection \<open>State store\<close>

text \<open>
  \<^verbatim>\<open>fwrite(&s, sizeof(s), 1, f)\<close> on the two-byte struct, after \<^verbatim>\<open>fopen\<close> with mode
  \<^verbatim>\<open>"wb"\<close>; a failed \<^verbatim>\<open>fopen\<close> returns without writing.
\<close>

definition save_state :: "uint8_t \<Rightarrow> uint8_t \<Rightarrow> world \<Rightarrow> world" where
  "save_state cid br w =
     (let w = w\<lparr>trace := trace w @ [SaveState cid br]\<rparr> in
      if \<not> state_writable w then w
      else (let s = \<lparr>color_id = cid, brightness = br\<rparr>
            in w\<lparr>state_file := Some [color_id s, brightness s]\<rparr>))"

text \<open>
  \<^verbatim>\<open>fread(&s, sizeof(s), 1, f)\<close>: the bytes the stream delivers, at most two, are stored
  in order over the struct; the return value is not looked at.
\<close>

definition fread_State :: "State \<Rightarrow> uint8_t list \<Rightarrow> State" where
  "fread_State s bytes =
     (case bytes of
        [] \<Rightarrow> s
      | [c] \<Rightarrow> s\<lparr>color_id := c\<rparr>
      | c # b # _ \<Rightarrow> s\<lparr>color_id := c, brightness := b\<rparr>)"

definition load_state :: "world \<Rightarrow> State" where
  "load_state w =
     (let s = \<lparr>color_id = snd (COLORS ! (COLOR_COUNT - 1)),
                brightness = word_of_int BRIGHTNESS_MAX\<rparr>
      in case state_file w of
           None \<Rightarrow> s
         | Some bytes \<Rightarrow> fread_State s bytes)"

subsection \<open>Discovery and transfer (second half of \<^verbatim>\<open>send_packet\<close>)\<close>

text \<open>The body of the \<^verbatim>\<open>fgets\<close> loop: the two flags after one more line.\<close>

definition scan_line :: "string \<Rightarrow> bool \<times> bool \<Rightarrow> bool \<times> bool" where
  "scan_line line flags =
     (case flags of (match_vid, match_iface) \<Rightarrow>
        (let match_vid =
               (case sscanf_HID_ID (c_str line) of
                  Some (bus, vid, pid) \<Rightarrow>
                    if bus = HID_BUS_USB \<and> vid = VENDOR_ID \<and> pid = PRODUCT_ID then True
                    else match_vid
                | None \<Rightarrow> match_vid);
             match_iface =
               (if strstr (c_str line) USB_INPUT_IFACE \<noteq> None then True else match_iface)
         in (match_vid, match_iface)))"

definition scan_lines :: "string list \<Rightarrow> bool \<times> bool" where
  "scan_lines ls = fold scan_line ls (False, False)"

definition scan_uevent :: "string \<Rightarrow> bool \<times> bool" where
  "scan_uevent text = scan_lines (fgets_lines text)"

text \<open>
  The \<^verbatim>\<open>readdir\<close> loop. It runs while there are entries and \<open>success\<close> is unset, so the
  recursion stops at the first transfer that returns \<open>PKT_SIZE\<close>; every \<^verbatim>\<open>continue\<close>
  is a recursive call on the remaining entries.
\<close>

fun scan_dir :: "uint8_t list \<Rightarrow> dir_entry list \<Rightarrow> world \<Rightarrow> bool \<times> world" where
  "scan_dir pkt [] w = (False, w)"
| "scan_dir pkt (e # es) w =
     (if d_name e \<noteq> [] \<and> hd (d_name e) = CHR ''.'' then scan_dir pkt es w
      else (case uevent e of
        None \<Rightarrow> scan_dir pkt es w
      | Some text \<Rightarrow>
          (case scan_uevent text of (match_vid, match_iface) \<Rightarrow>
             if \<not> match_vid \<or> \<not> match_iface then scan_dir pkt es w
             else (let w = w\<lparr>trace := trace w @ [OpenDev (d_name e) (dev_open e)]\<rparr> in
               if \<not> dev_open e then scan_dir pkt es w
               else (let ret = ioctl_ret e;
                         w = w\<lparr>trace := trace w @ [SetFeature (d_name e) pkt ret]\<rparr>
                     in if ret = int PKT_SIZE then (True, w) else scan_dir pkt es w)))))"

definition send_packet :: "uint8_t \<Rightarrow> uint8_t \<Rightarrow> world \<Rightarrow> int \<times> world" where
  "send_packet cid br w =
     (let pkt = build_pkt cid br in
      case hidraw_dir w of
        None \<Rightarrow> (- 1, w)
      | Some entries \<Rightarrow>
          (case scan_dir pkt entries w of (success, w) \<Rightarrow>
             if \<not> success then (- 1, w) else (0, w)))"

subsection \<open>The command line\<close>

datatype error =
    MissingBrightness
  | BrightnessRange
  | MissingColor
  | UnknownColor string
  | UnknownOption string

text \<open>The loop over \<open>argv[1..]\<close>; an option takes its value with \<^verbatim>\<open>++i\<close>.\<close>

fun parse_args :: "string list \<Rightarrow> State \<Rightarrow> error + State" where
  "parse_args [] s = Inr s"
| "parse_args [a] s =
     (if a = ''--brightness'' \<or> a = ''-b'' then Inl MissingBrightness
      else if a = ''--color'' \<or> a = ''-c'' then Inl MissingColor
      else Inl (UnknownOption a))"
| "parse_args (a # v # rest) s =
     (if a = ''--brightness'' \<or> a = ''-b'' then
        (let b = atoi v in
         if b < BRIGHTNESS_MIN \<or> b > BRIGHTNESS_MAX then Inl BrightnessRange
         else parse_args rest (s\<lparr>brightness := word_of_int b\<rparr>))
      else if a = ''--color'' \<or> a = ''-c'' then
        (let cid = color_id_from_name v in
         if cid = 0 then Inl (UnknownColor v)
         else parse_args rest (s\<lparr>color_id := cid\<rparr>))
      else Inl (UnknownOption a))"

text \<open>\<^verbatim>\<open>main\<close>: the exit status and the world it leaves.\<close>

definition main :: "string list \<Rightarrow> world \<Rightarrow> int \<times> world" where
  "main argv w =
     (if length argv < 2 then (1, w)
      else if argv ! 1 = ''--list'' then (0, w)
      else (case parse_args (tl argv) (load_state w) of
        Inl err \<Rightarrow> (1, w)
      | Inr s \<Rightarrow>
          (case send_packet (color_id s) (brightness s) w of (r, w) \<Rightarrow>
             if r < 0 then (1, w)
             else (0, save_state (color_id s) (brightness s) w))))"

subsection \<open>Predicates of the specification\<close>

text \<open>
  The two facts discovery looks for in a line of a descriptor, and an entry whose
  descriptor has a line with the first and a line with the second.
\<close>

definition line_identity :: "string \<Rightarrow> bool" where
  "line_identity line =
     (sscanf_HID_ID (c_str line) = Some (HID_BUS_USB, VENDOR_ID, PRODUCT_ID))"

definition line_iface :: "string \<Rightarrow> bool" where
  "line_iface line = (strstr (c_str line) USB_INPUT_IFACE \<noteq> None)"

definition accepted :: "dir_entry \<Rightarrow> bool" where
  "accepted e =
     (case uevent e of
        None \<Rightarrow> False
      | Some text \<Rightarrow>
          (\<exists>l \<in> set (fgets_lines text). line_identity l)
          \<and> (\<exists>l \<in> set (fgets_lines text). line_iface l))"

text \<open>
  What one event of the discovery loop must look like: a device is opened, and a packet
  is sent to it, only for an accepted entry of the directory; the loop never saves.
\<close>

definition dev_event :: "uint8_t list \<Rightarrow> dir_entry list \<Rightarrow> event \<Rightarrow> bool" where
  "dev_event pkt es ev =
     (case ev of
        OpenDev n b \<Rightarrow> (\<exists>e \<in> set es. d_name e = n \<and> dev_open e = b \<and> accepted e)
      | SetFeature n p r \<Rightarrow>
          p = pkt \<and> (\<exists>e \<in> set es. d_name e = n \<and> dev_open e \<and> ioctl_ret e = r \<and> accepted e)
      | SaveState c b \<Rightarrow> False)"

text \<open>The directory listing \<^verbatim>\<open>send_packet\<close> scans; nothing when \<^verbatim>\<open>opendir\<close> fails.\<close>

definition entries :: "world \<Rightarrow> dir_entry list" where
  "entries w = (case hidraw_dir w of None \<Rightarrow> [] | Some es \<Rightarrow> es)"

text \<open>
  A descriptor line as sysfs writes it: it ends with its only newline and fits the line
  buffer, so that \<^verbatim>\<open>fgets\<close> returns it whole.
\<close>

definition proper_line :: "string \<Rightarrow> bool" where
  "proper_line l =
     (l \<noteq> [] \<and> length l < PATH_MAX \<and> last l = CHR 0x0A \<and> CHR 0x0A \<notin> set (butlast l))"

subsection \<open>Example inputs\<close>

text \<open>
  Lines of \<^verbatim>\<open>uevent\<close> files as sysfs writes them for this keyboard and for another USB
  device, a hidraw directory with two nodes of the keyboard, of which only the second is
  the RGB interface, and a world around it. They are the inputs at which the theorems
  below are instantiated.
\<close>

abbreviation line_hid_id :: string where
  "line_hid_id \<equiv> ''HID_ID=0003:00001044:00007A3B\<newline>''"

abbreviation line_input3 :: string where
  "line_input3 \<equiv> ''HID_PHYS=usb-0000:00:14.0-8/input3\<newline>''"

abbreviation line_input0 :: string where
  "line_input0 \<equiv> ''HID_PHYS=usb-0000:00:14.0-8/input0\<newline>''"

abbreviation line_other_id :: string where
  "line_other_id \<equiv> ''HID_ID=0003:0000046D:0000C52B\<newline>''"

abbreviation aorus_dir :: "int \<Rightarrow> dir_entry list" where
  "aorus_dir ret \<equiv>
     [\<lparr>d_name = ''hidraw0'', uevent = Some (line_hid_id @ line_input0),
       dev_open = True, ioctl_ret = 9\<rparr>,
      \<lparr>d_name = ''hidraw1'', uevent = Some (line_input3 @ line_hid_id),
       dev_open = True, ioctl_ret = ret\<rparr>]"

abbreviation aorus_world :: "uint8_t list option \<Rightarrow> int \<Rightarrow> world" where
  "aorus_world saved ret \<equiv>
     \<lparr>state_file = saved, state_writable = True, hidraw_dir = Some (aorus_dir ret), trace = []\<rparr>"

section \<open>Verification\<close>

subsection \<open>The packet in closed form\<close>

lemma pkt_cells: "replicate PKT_SIZE (0::uint8_t) = [0,0,0,0,0,0,0,0,0]"
  by (simp add: PKT_SIZE_def numeral_eq_Suc)

lemma store_div: "(word_of_int (uint br div PKT_BRIGHTNESS_DIV) :: uint8_t) = br div 2"
  by (simp add: PKT_BRIGHTNESS_DIV_def word_div_def)

lemma promoted_gt: "(uint (br :: uint8_t) > BRIGHTNESS_MIN) = (br \<noteq> 0)"
  by (simp add: BRIGHTNESS_MIN_def word_neq_0_conv word_less_def)

lemma checksum_loop_eq:
  "checksum_loop [b0, b1, b2, b3, b4, b5, b6, b7, b8] = b0 + b1 + b2 + b3 + b4 + b5 + b6 + b7"
  by (simp add: checksum_loop_def PKT_CHECKSUM_BYTES_def upt_rec [of _ "numeral _"]
      upt_rec [of _ "Suc _"] numeral_eq_Suc)

lemma build_pkt_bytes:
  "build_pkt cid br =
     [0, 8, 0, 1, 1, br div 2, (if br \<noteq> 0 then cid else 5), 1,
      0xff - (8 + 1 + 1 + br div 2 + (if br \<noteq> 0 then cid else 5) + 1)]"
  unfolding build_pkt_def pkt_cells Let_def store_div promoted_gt
  by (simp add: checksum_loop_eq PKT_REPORT_ID_def PKT_CMD_def PKT_BYTE2_def PKT_BYTE3_def
      PKT_BYTE4_def PKT_BYTE7_def COLOR_ID_OFF_def PKT_CHECKSUM_INIT_def)

lemma uint_sum_list: "uint (sum_list (xs :: uint8_t list)) = sum_list (map uint xs) mod 256"
  by (induction xs) (simp_all add: uint_word_ariths mod_add_right_eq)

lemma unat_sum_list: "unat (sum_list (xs :: uint8_t list)) = sum_list (map unat xs) mod 256"
  by (induction xs) (simp_all add: unat_word_ariths mod_add_right_eq)

lemma build_pkt_total: "sum_list (build_pkt cid br) = 0xff"
  by (simp add: build_pkt_bytes)

lemma build_pkt_length: "length (build_pkt cid br) = 9"
  by (simp add: build_pkt_bytes)

lemma brightness_cast: "0 \<le> b \<Longrightarrow> b \<le> 100 \<Longrightarrow> uint (word_of_int b :: uint8_t) = b"
  by (simp add: uint_word_of_int)

lemma color_ids:
  "(name, cid) \<in> set COLORS \<Longrightarrow> color_id_from_name name = cid"
  by (auto simp: COLORS_def color_id_from_name_def COLOR_COUNT_def)

subsection \<open>The discovery loop\<close>

lemma scan_line_flags:
  "scan_line l (a, b) = (a \<or> line_identity l, b \<or> line_iface l)"
  by (auto simp: scan_line_def line_identity_def line_iface_def split: option.splits)

lemma fold_scan_line:
  "fold scan_line ls (a, b) = (a \<or> (\<exists>l \<in> set ls. line_identity l), b \<or> (\<exists>l \<in> set ls. line_iface l))"
  by (induction ls arbitrary: a b) (auto simp: scan_line_flags)

lemma scan_lines_flags:
  "scan_lines ls = ((\<exists>l \<in> set ls. line_identity l), (\<exists>l \<in> set ls. line_iface l))"
  by (simp add: scan_lines_def fold_scan_line)

lemma scan_uevent_accepted:
  "uevent e = Some text \<Longrightarrow> scan_uevent text = (mv, mi) \<Longrightarrow> accepted e = (mv \<and> mi)"
  by (auto simp: scan_uevent_def scan_lines_flags accepted_def)

lemma scan_dir_skip: "\<not> accepted e \<Longrightarrow> scan_dir pkt (e # es) w = scan_dir pkt es w"
  by (auto simp: Let_def split: option.splits prod.splits dest: scan_uevent_accepted)

lemma scan_dir_hidden:
  "d_name e \<noteq> [] \<Longrightarrow> hd (d_name e) = CHR ''.'' \<Longrightarrow> scan_dir pkt (e # es) w = scan_dir pkt es w"
  by simp

lemma scan_dir_accept:
  "accepted e \<Longrightarrow> \<not> (d_name e \<noteq> [] \<and> hd (d_name e) = CHR ''.'') \<Longrightarrow>
   scan_dir pkt (e # es) w =
     (if \<not> dev_open e
      then scan_dir pkt es (w\<lparr>trace := trace w @ [OpenDev (d_name e) False]\<rparr>)
      else if ioctl_ret e = int PKT_SIZE
      then (True, w\<lparr>trace := trace w @ [OpenDev (d_name e) True,
                                           SetFeature (d_name e) pkt (ioctl_ret e)]\<rparr>)
      else scan_dir pkt es (w\<lparr>trace := trace w @ [OpenDev (d_name e) True,
                                           SetFeature (d_name e) pkt (ioctl_ret e)]\<rparr>))"
proof -
  assume acc: "accepted e" and nh: "\<not> (d_name e \<noteq> [] \<and> hd (d_name e) = CHR ''.'')"
  from acc obtain u where t: "uevent e = Some u"
    by (cases "uevent e") (simp_all add: accepted_def)
  with acc have "scan_uevent u = (True, True)"
    by (simp add: accepted_def scan_uevent_def scan_lines_flags)
  with t nh show ?thesis
    by (auto simp: Let_def)
qed

lemma scan_dir_cases:
  obtains (skip) "scan_dir pkt (e # es) w = scan_dir pkt es w"
  | (closed) "accepted e" "\<not> dev_open e"
      "scan_dir pkt (e # es) w =
         scan_dir pkt es (w\<lparr>trace := trace w @ [OpenDev (d_name e) False]\<rparr>)"
  | (sent) "accepted e" "dev_open e" "ioctl_ret e = int PKT_SIZE"
      "scan_dir pkt (e # es) w =
         (True, w\<lparr>trace := trace w @ [OpenDev (d_name e) True,
                                        SetFeature (d_name e) pkt (ioctl_ret e)]\<rparr>)"
  | (refused) "accepted e" "dev_open e" "ioctl_ret e \<noteq> int PKT_SIZE"
      "scan_dir pkt (e # es) w =
         scan_dir pkt es (w\<lparr>trace := trace w @ [OpenDev (d_name e) True,
                                        SetFeature (d_name e) pkt (ioctl_ret e)]\<rparr>)"
proof (cases "accepted e \<and> \<not> (d_name e \<noteq> [] \<and> hd (d_name e) = CHR ''.'')")
  case False
  then have "scan_dir pkt (e # es) w = scan_dir pkt es w"
    using scan_dir_skip [of e pkt es w] scan_dir_hidden [of e pkt es w] by blast
  then show ?thesis by (rule skip)
next
  case True
  then have acc: "accepted e" and nh: "\<not> (d_name e \<noteq> [] \<and> hd (d_name e) = CHR ''.'')"
    by simp_all
  note eq = scan_dir_accept [OF acc nh, of pkt es w]
  show ?thesis
  proof (cases "dev_open e")
    case False
    with eq acc show ?thesis by (intro closed) simp_all
  next
    case op: True
    show ?thesis
    proof (cases "ioctl_ret e = int PKT_SIZE")
      case True
      with eq acc op show ?thesis by (intro sent) simp_all
    next
      case False
      with eq acc op show ?thesis by (intro refused) simp_all
    qed
  qed
qed

lemma scan_dir_frame:
  "scan_dir pkt es w = (ok, w') \<Longrightarrow>
     state_file w' = state_file w \<and> state_writable w' = state_writable w
     \<and> hidraw_dir w' = hidraw_dir w"
proof (induction es arbitrary: w)
  case Nil
  then show ?case by simp
next
  case (Cons e es)
  show ?case
    using Cons.prems Cons.IH
    by (cases rule: scan_dir_cases [of pkt e es w]) (simp only:, fastforce)+
qed

lemma dev_event_mono: "dev_event pkt es ev \<Longrightarrow> dev_event pkt (e # es) ev"
  by (auto simp: dev_event_def split: event.splits)

lemma scan_dir_trace:
  "scan_dir pkt es w = (ok, w') \<Longrightarrow>
     \<exists>evs. trace w' = trace w @ evs \<and> (\<forall>ev \<in> set evs. dev_event pkt es ev)
       \<and> (ok = (\<exists>n. SetFeature n pkt (int PKT_SIZE) \<in> set evs))"
proof (induction es arbitrary: w)
  case Nil
  then show ?case by simp
next
  case (Cons e es)
  show ?case
  proof (cases rule: scan_dir_cases [of pkt e es w])
    case skip
    with Cons.prems have "scan_dir pkt es w = (ok, w')" by simp
    from Cons.IH [OF this] show ?thesis
      by (auto intro: dev_event_mono)
  next
    case closed
    let ?w1 = "w\<lparr>trace := trace w @ [OpenDev (d_name e) False]\<rparr>"
    from closed Cons.prems have "scan_dir pkt es ?w1 = (ok, w')" by simp
    from Cons.IH [OF this] obtain evs where
      evs: "trace w' = trace ?w1 @ evs" "\<forall>ev \<in> set evs. dev_event pkt es ev"
        "ok = (\<exists>n. SetFeature n pkt (int PKT_SIZE) \<in> set evs)"
      by blast
    have here: "dev_event pkt (e # es) (OpenDev (d_name e) False)"
      using closed by (simp add: dev_event_def)
    show ?thesis
    proof (intro exI conjI)
      show "trace w' = trace w @ (OpenDev (d_name e) False # evs)"
        using evs(1) by simp
      show "\<forall>ev \<in> set (OpenDev (d_name e) False # evs). dev_event pkt (e # es) ev"
        using evs(2) here by (auto intro: dev_event_mono)
      show "ok = (\<exists>n. SetFeature n pkt (int PKT_SIZE) \<in> set (OpenDev (d_name e) False # evs))"
        using evs(3) by simp
    qed
  next
    case sent
    have here: "dev_event pkt (e # es) (OpenDev (d_name e) True)"
      "dev_event pkt (e # es) (SetFeature (d_name e) pkt (ioctl_ret e))"
      using sent by (simp_all add: dev_event_def)
    from sent Cons.prems have ok: "ok" and w': "w' = w\<lparr>trace := trace w @ [OpenDev (d_name e) True,
                                        SetFeature (d_name e) pkt (ioctl_ret e)]\<rparr>"
      by simp_all
    show ?thesis
    proof (intro exI conjI)
      show "trace w' = trace w @ [OpenDev (d_name e) True, SetFeature (d_name e) pkt (ioctl_ret e)]"
        using w' by simp
      show "\<forall>ev \<in> set [OpenDev (d_name e) True, SetFeature (d_name e) pkt (ioctl_ret e)].
              dev_event pkt (e # es) ev"
        using here by simp
      show "ok = (\<exists>n. SetFeature n pkt (int PKT_SIZE)
                    \<in> set [OpenDev (d_name e) True, SetFeature (d_name e) pkt (ioctl_ret e)])"
        using ok sent(3) by auto
    qed
  next
    case refused
    let ?evs0 = "[OpenDev (d_name e) True, SetFeature (d_name e) pkt (ioctl_ret e)]"
    let ?w1 = "w\<lparr>trace := trace w @ ?evs0\<rparr>"
    from refused Cons.prems have "scan_dir pkt es ?w1 = (ok, w')" by simp
    from Cons.IH [OF this] obtain evs where
      evs: "trace w' = trace ?w1 @ evs" "\<forall>ev \<in> set evs. dev_event pkt es ev"
        "ok = (\<exists>n. SetFeature n pkt (int PKT_SIZE) \<in> set evs)"
      by blast
    have here: "\<forall>ev \<in> set ?evs0. dev_event pkt (e # es) ev"
      using refused by (simp add: dev_event_def)
    show ?thesis
    proof (intro exI conjI)
      show "trace w' = trace w @ (?evs0 @ evs)"
        using evs(1) by simp
      show "\<forall>ev \<in> set (?evs0 @ evs). dev_event pkt (e # es) ev"
        using evs(2) here by (auto intro: dev_event_mono)
      show "ok = (\<exists>n. SetFeature n pkt (int PKT_SIZE) \<in> set (?evs0 @ evs))"
        using evs(3) refused(3) by auto
    qed
  qed
qed

lemma fgets_whole_line:
  "l \<noteq> [] \<Longrightarrow> length l \<le> k \<Longrightarrow> last l = CHR 0x0A \<Longrightarrow> CHR 0x0A \<notin> set (butlast l) \<Longrightarrow>
     fgets k (l @ r) = (l, r)"
proof (induction l arbitrary: k)
  case Nil
  then show ?case by simp
next
  case (Cons c l)
  show ?case
  proof (cases "l = []")
    case True
    with Cons.prems show ?thesis by simp
  next
    case False
    with Cons.prems have "c \<noteq> CHR 0x0A" "length l \<le> k - 1" "last l = CHR 0x0A"
      "CHR 0x0A \<notin> set (butlast l)" "k \<noteq> 0"
      by auto
    with Cons.IH [OF False, of "k - 1"] show ?thesis by simp
  qed
qed

lemma fgets_lines_concat:
  "\<forall>l \<in> set ls. proper_line l \<Longrightarrow> fgets_lines (concat ls) = ls"
proof (induction ls)
  case Nil
  then show ?case by (simp add: fgets_lines.simps)
next
  case (Cons l ls)
  then have p: "proper_line l" and rest: "fgets_lines (concat ls) = ls"
    by simp_all
  from p have "fgets (PATH_MAX - 1) (l @ concat ls) = (l, concat ls)"
    by (intro fgets_whole_line) (simp_all add: proper_line_def PATH_MAX_def)
  moreover from p have "l @ concat ls \<noteq> []"
    by (simp add: proper_line_def)
  ultimately have "fgets_lines (l @ concat ls) = l # fgets_lines (concat ls)"
    by (subst fgets_lines.simps) (simp del: fgets.simps)
  with rest show ?case by simp
qed

lemma scan_uevent_reorder:
  assumes "\<forall>l \<in> set ls. proper_line l" and "mset ls' = mset ls"
  shows "scan_uevent (concat ls') = scan_uevent (concat ls)"
proof -
  from assms(2) have s: "set ls' = set ls" by (rule mset_eq_setD)
  with assms(1) have "\<forall>l \<in> set ls'. proper_line l" by simp
  with assms(1) s show ?thesis
    by (simp add: scan_uevent_def fgets_lines_concat scan_lines_flags)
qed

subsection \<open>Sending and saving\<close>

lemma send_packet_effect:
  assumes "send_packet cid br w = (r, w')"
  shows "state_file w' = state_file w \<and> state_writable w' = state_writable w
         \<and> hidraw_dir w' = hidraw_dir w"
    and "\<exists>evs. trace w' = trace w @ evs
           \<and> (\<forall>ev \<in> set evs. dev_event (build_pkt cid br) (entries w) ev)
           \<and> ((r = 0) = (\<exists>n. SetFeature n (build_pkt cid br) (int PKT_SIZE) \<in> set evs))
           \<and> ((r < 0) = (\<not> (\<exists>n. SetFeature n (build_pkt cid br) (int PKT_SIZE) \<in> set evs)))"
proof -
  show "state_file w' = state_file w \<and> state_writable w' = state_writable w
         \<and> hidraw_dir w' = hidraw_dir w"
  proof (cases "hidraw_dir w")
    case None
    with assms show ?thesis by (simp add: send_packet_def)
  next
    case (Some es)
    obtain ok w1 where s: "scan_dir (build_pkt cid br) es w = (ok, w1)"
      by (cases "scan_dir (build_pkt cid br) es w")
    with assms Some have "w' = w1" by (simp add: send_packet_def split: if_splits)
    with scan_dir_frame [OF s] show ?thesis by simp
  qed
next
  show "\<exists>evs. trace w' = trace w @ evs
           \<and> (\<forall>ev \<in> set evs. dev_event (build_pkt cid br) (entries w) ev)
           \<and> ((r = 0) = (\<exists>n. SetFeature n (build_pkt cid br) (int PKT_SIZE) \<in> set evs))
           \<and> ((r < 0) = (\<not> (\<exists>n. SetFeature n (build_pkt cid br) (int PKT_SIZE) \<in> set evs)))"
  proof (cases "hidraw_dir w")
    case None
    with assms have "w' = w" "r = - 1" by (simp_all add: send_packet_def)
    then show ?thesis by simp
  next
    case (Some es)
    obtain ok w1 where s: "scan_dir (build_pkt cid br) es w = (ok, w1)"
      by (cases "scan_dir (build_pkt cid br) es w")
    with assms Some have r: "w' = w1" "r = (if ok then 0 else - 1)"
      by (simp_all add: send_packet_def split: if_splits)
    from scan_dir_trace [OF s] obtain evs where
      "trace w1 = trace w @ evs" "\<forall>ev \<in> set evs. dev_event (build_pkt cid br) es ev"
      "ok = (\<exists>n. SetFeature n (build_pkt cid br) (int PKT_SIZE) \<in> set evs)"
      by blast
    with r Some show ?thesis
      by (intro exI [of _ evs]) (simp add: entries_def)
  qed
qed

lemma main_run:
  assumes "main argv w = (rc, w')"
  obtains (invalid) "rc = 1" "w' = w"
  | (list) "rc = 0" "w' = w" "2 \<le> length argv" "argv ! 1 = ''--list''"
  | (failed) s w1 r where "parse_args (tl argv) (load_state w) = Inr s"
      "send_packet (color_id s) (brightness s) w = (r, w1)" "r < 0" "rc = 1" "w' = w1"
  | (sent) s w1 r where "parse_args (tl argv) (load_state w) = Inr s"
      "send_packet (color_id s) (brightness s) w = (r, w1)" "\<not> r < 0" "rc = 0"
      "w' = save_state (color_id s) (brightness s) w1"
  using assms
  by (auto simp: main_def split: if_splits sum.splits prod.splits)

lemma save_state_effect:
  "trace (save_state c b w) = trace w @ [SaveState c b]"
  "state_file (save_state c b w) = (if state_writable w then Some [c, b] else state_file w)"
  by (simp_all add: save_state_def Let_def)

lemma dev_event_SaveState: "\<not> dev_event pkt es (SaveState c b)"
  by (simp add: dev_event_def)

lemma dev_event_SetFeature: "dev_event pkt es (SetFeature n p r) \<Longrightarrow> p = pkt"
  by (simp add: dev_event_def)

lemma atoi_50: "atoi ''50'' = 50"
  by code_simp

lemma parse_blue_50:
  "parse_args [''--color'', ''blue'', ''--brightness'', ''50''] s = Inr \<lparr>color_id = 4, brightness = 50\<rparr>"
  by (simp add: atoi_50 BRIGHTNESS_MIN_def BRIGHTNESS_MAX_def color_id_from_name_def COLORS_def COLOR_COUNT_def)

subsection \<open>The examples, evaluated\<close>

lemma example_identity:
  "line_identity line_hid_id" "\<not> line_identity line_input3" "\<not> line_identity line_input0"
  "\<not> line_identity line_other_id"
  by (simp_all add: line_identity_def c_str_def sscanf_HID_ID_def scan_literal_def scan_X_def
      isspace_def xdigit_val_def xdigits_val_def Let_def HID_BUS_USB_def VENDOR_ID_def
      PRODUCT_ID_def)

lemma example_iface:
  "line_iface line_input3" "\<not> line_iface line_hid_id" "\<not> line_iface line_input0"
  "\<not> line_iface line_other_id"
  by (simp_all add: line_iface_def c_str_def USB_INPUT_IFACE_def)

lemma example_proper:
  "proper_line line_hid_id" "proper_line line_input3" "proper_line line_input0"
  "proper_line line_other_id"
  by (simp_all add: proper_line_def PATH_MAX_def)

lemma example_lines:
  "proper_line a \<Longrightarrow> proper_line b \<Longrightarrow> fgets_lines (a @ b) = [a, b]"
  using fgets_lines_concat [of "[a, b]"] by simp

lemma example_accepted:
  "accepted \<lparr>d_name = n, uevent = Some (line_input3 @ line_hid_id), dev_open = op, ioctl_ret = r\<rparr>"
  "\<not> accepted \<lparr>d_name = n, uevent = Some (line_hid_id @ line_input0), dev_open = op, ioctl_ret = r\<rparr>"
  "\<not> accepted \<lparr>d_name = n, uevent = Some (line_other_id @ line_input3), dev_open = op, ioctl_ret = r\<rparr>"
  by (simp_all add: accepted_def example_lines example_proper example_identity example_iface
      del: append.simps)

lemma example_scan:
  "scan_dir pkt (aorus_dir ret) w =
     (ret = 9, w\<lparr>trace := trace w @ [OpenDev ''hidraw1'' True, SetFeature ''hidraw1'' pkt ret]\<rparr>)"
  by (simp add: scan_dir_skip scan_dir_accept example_accepted PKT_SIZE_def
      del: scan_dir.simps(2) append.simps)

lemma example_send:
  "send_packet cid br (aorus_world saved ret) =
     (if ret = 9 then 0 else - 1,
      \<lparr>state_file = saved, state_writable = True, hidraw_dir = Some (aorus_dir ret),
       trace = [OpenDev ''hidraw1'' True, SetFeature ''hidraw1'' (build_pkt cid br) ret]\<rparr>)"
  by (simp add: send_packet_def example_scan del: scan_dir.simps(2) append.simps)

lemma atoi_0: "atoi ''0'' = 0"
  by code_simp

lemma example_blue_50:
  "main [''kb-color'', ''--color'', ''blue'', ''--brightness'', ''50''] (aorus_world None 9) =
     (0, \<lparr>state_file = Some [4, 50], state_writable = True, hidraw_dir = Some (aorus_dir 9),
          trace = [OpenDev ''hidraw1'' True, SetFeature ''hidraw1'' (build_pkt 4 50) 9,
                   SaveState 4 50]\<rparr>)"
proof -
  have "parse_args (tl [''kb-color'', ''--color'', ''blue'', ''--brightness'', ''50''])
          (load_state (aorus_world None 9)) = Inr \<lparr>color_id = 4, brightness = 50\<rparr>"
    by (simp only: list.sel parse_blue_50)
  then show ?thesis
    by (simp add: main_def example_send save_state_def del: parse_args.simps append.simps)
qed

lemma example_dim_refused:
  "main [''kb-color'', ''-b'', ''0''] (aorus_world (Some [4, 50]) (- 1)) =
     (1, \<lparr>state_file = Some [4, 50], state_writable = True, hidraw_dir = Some (aorus_dir (- 1)),
          trace = [OpenDev ''hidraw1'' True, SetFeature ''hidraw1'' (build_pkt 4 0) (- 1)]\<rparr>)"
proof -
  have "parse_args (tl [''kb-color'', ''-b'', ''0'']) (load_state (aorus_world (Some [4, 50]) (- 1)))
          = Inr \<lparr>color_id = 4, brightness = 0\<rparr>"
    by (simp add: atoi_0 load_state_def fread_State_def BRIGHTNESS_MIN_def BRIGHTNESS_MAX_def)
  then show ?thesis
    by (simp add: main_def example_send del: parse_args.simps append.simps)
qed

lemma excluded_left: "A \<or> B \<Longrightarrow> \<not> A \<Longrightarrow> B"
  by blast

section \<open>The claims\<close>

text \<open>
  C1 (as amended). Invoked with \<^verbatim>\<open>--color blue --brightness 50\<close>, the program resolves
  blue to id 4 and builds the packet 00 08 00 01 01 19 04 01 D7: bytes 0 to 7 sum to
  0x28 = 40 and the checksum is 255 - 40 = 215 = 0xD7. Every packet the run sends to a
  device is that packet, and when the run succeeds and the state file can be opened for
  writing, the state file holds exactly the two bytes 04 32.
\<close>

theorem blue_50_end_to_end:
  "main [prog, ''--color'', ''blue'', ''--brightness'', ''50''] w = (rc, w') \<Longrightarrow> trace w = [] \<Longrightarrow>
     color_id_from_name ''blue'' = 4
     \<and> build_pkt 4 50 = [0x00, 0x08, 0x00, 0x01, 0x01, 0x19, 0x04, 0x01, 0xD7]
     \<and> (\<forall>n p r. SetFeature n p r \<in> set (trace w') \<longrightarrow>
           p = [0x00, 0x08, 0x00, 0x01, 0x01, 0x19, 0x04, 0x01, 0xD7])
     \<and> (rc = 0 \<and> state_writable w \<longrightarrow> state_file w' = Some [0x04, 0x32])"
proof -
  let ?argv = "[prog, ''--color'', ''blue'', ''--brightness'', ''50'']"
  let ?pkt = "[0x00, 0x08, 0x00, 0x01, 0x01, 0x19, 0x04, 0x01, 0xD7] :: uint8_t list"
  assume run: "main ?argv w = (rc, w')" and fresh: "trace w = []"
  have blue: "color_id_from_name ''blue'' = 4"
    by (simp add: color_id_from_name_def COLORS_def COLOR_COUNT_def)
  have pkt: "build_pkt 4 50 = ?pkt"
    by (simp add: build_pkt_bytes)
  have args: "parse_args (tl ?argv) s = Inr \<lparr>color_id = 4, brightness = 50\<rparr>" for s
    by (simp only: list.sel parse_blue_50)
  have "(\<forall>n p r. SetFeature n p r \<in> set (trace w') \<longrightarrow> p = ?pkt)
     \<and> (rc = 0 \<and> state_writable w \<longrightarrow> state_file w' = Some [0x04, 0x32])"
    using run
  proof (cases rule: main_run)
    case invalid
    with fresh show ?thesis by simp
  next
    case list
    then show ?thesis by simp
  next
    case (failed s w1 r)
    with args have s: "color_id s = 4" "brightness s = 50" by auto
    from send_packet_effect [OF failed(2)] fresh s pkt obtain evs where
      "trace w1 = evs" "\<forall>ev \<in> set evs. dev_event ?pkt (entries w) ev"
      by auto
    with failed show ?thesis
      by (auto dest: dev_event_SetFeature)
  next
    case (sent s w1 r)
    with args have s: "color_id s = 4" "brightness s = 50" by auto
    from send_packet_effect [OF sent(2)] fresh s pkt obtain evs where
      "state_writable w1 = state_writable w" "trace w1 = evs"
      "\<forall>ev \<in> set evs. dev_event ?pkt (entries w) ev"
      by auto
    with sent s show ?thesis
      by (auto simp: save_state_effect dest: dev_event_SetFeature)
  qed
  with blue pkt show ?thesis by simp
qed

theorem blue_50_end_to_end_witness:
  "trace (aorus_world None 9) = []
   \<and> state_writable (aorus_world None 9)
   \<and> fst (main [''kb-color'', ''--color'', ''blue'', ''--brightness'', ''50''] (aorus_world None 9)) = 0
   \<and> SetFeature ''hidraw1'' [0x00, 0x08, 0x00, 0x01, 0x01, 0x19, 0x04, 0x01, 0xD7] 9
        \<in> set (trace (snd (main [''kb-color'', ''--color'', ''blue'', ''--brightness'', ''50'']
                              (aorus_world None 9))))
   \<and> state_file (snd (main [''kb-color'', ''--color'', ''blue'', ''--brightness'', ''50'']
                         (aorus_world None 9))) = Some [0x04, 0x32]"
proof -
  let ?run = "main [''kb-color'', ''--color'', ''blue'', ''--brightness'', ''50''] (aorus_world None 9)"
  have fresh: "trace (aorus_world None 9) = []" and wr: "state_writable (aorus_world None 9)"
    by simp_all
  have rc: "fst ?run = 0"
    by (simp only: example_blue_50 fst_conv)
  have sent: "SetFeature ''hidraw1'' (build_pkt 4 50) 9 \<in> set (trace (snd ?run))"
    by (simp only: example_blue_50 snd_conv) simp
  have run: "?run = (fst ?run, snd ?run)"
    by (simp only: prod.collapse)
  note inst = blue_50_end_to_end [OF run fresh]
  note pkt = inst [THEN conjunct2, THEN conjunct1]
  note saved = inst [THEN conjunct2, THEN conjunct2, THEN conjunct2, THEN mp, OF conjI [OF rc wr]]
  from sent have "SetFeature ''hidraw1'' [0x00, 0x08, 0x00, 0x01, 0x01, 0x19, 0x04, 0x01, 0xD7] 9
                    \<in> set (trace (snd ?run))"
    by (simp only: pkt)
  with fresh wr rc saved show ?thesis
    by (intro conjI)
qed

text \<open>
  C1, as stated, fails: the checksum of the packet for blue at brightness 50 is 0xD7,
  not 0xDC.
\<close>

theorem blue_50_packet_counterexample:
  "build_pkt (color_id_from_name ''blue'') 50
     \<noteq> [0x00, 0x08, 0x00, 0x01, 0x01, 0x19, 0x04, 0x01, 0xDC]"
  by (simp add: build_pkt_bytes color_id_from_name_def COLORS_def COLOR_COUNT_def)

text \<open>
  C2 (as amended). For every colour of the table and brightness 0, byte 6 of the packet
  is the off sentinel 5. The sentinel is the id of the named colour orange and differs
  from the ids of the other six colours: byte 6 differs from the requested colour's id
  exactly when the requested colour is not orange.
\<close>

theorem off_sentinel_at_zero:
  "(name, cid) \<in> set COLORS \<Longrightarrow>
     build_pkt cid 0 ! 6 = word_of_int COLOR_ID_OFF
     \<and> COLOR_ID_OFF = 5
     \<and> ((build_pkt cid 0 ! 6 = cid) = (name = ''orange''))"
  by (auto simp: build_pkt_bytes COLOR_ID_OFF_def COLORS_def)

theorem off_sentinel_at_zero_witness:
  "(''blue'', 4) \<in> set COLORS \<and> build_pkt 4 0 ! 6 = 5 \<and> build_pkt 4 0 ! 6 \<noteq> 4"
  using off_sentinel_at_zero [of "''blue''" 4]
  by (simp add: COLORS_def COLOR_ID_OFF_def)

text \<open>
  C2, as stated, fails at orange: its id is the sentinel, so at brightness 0 byte 6 is
  the requested colour's id.
\<close>

theorem off_sentinel_orange_counterexample:
  "color_id_from_name ''orange'' = word_of_int COLOR_ID_OFF
   \<and> build_pkt (color_id_from_name ''orange'') 0 ! 6 = color_id_from_name ''orange''"
  by (simp add: build_pkt_bytes COLOR_ID_OFF_def COLORS_def color_id_from_name_def
      COLOR_COUNT_def)

text \<open>
  C3 (as amended). For every packet the program builds, the sum of bytes 0 to 8 modulo
  256 is 255.
\<close>

theorem recomputed_sum_is_255:
  "sum_list (map unat (build_pkt cid br)) mod 256 = 255"
  using unat_sum_list [of "build_pkt cid br"] by (simp add: build_pkt_total)

text \<open>C3, as stated, fails: the nine bytes of the packet for blue at 50 do not sum to 0.\<close>

theorem recomputed_sum_counterexample:
  "sum_list (map unat (build_pkt 4 50)) mod 256 \<noteq> 0"
  by (simp add: build_pkt_bytes)

text \<open>
  C4. For every colour id and brightness, byte 8 of the packet is 255 minus the sum of
  bytes 0 to 7 modulo 256, taken modulo 256.
\<close>

theorem checksum_byte:
  "uint (build_pkt cid br ! 8) =
     (255 - (sum_list (map uint (take 8 (build_pkt cid br))) mod 256)) mod 256"
proof -
  have "build_pkt cid br ! 8 = 0xff - sum_list (take 8 (build_pkt cid br))"
    by (simp add: build_pkt_bytes)
  then show ?thesis
    by (simp add: uint_word_ariths uint_sum_list mod_diff_right_eq)
qed

text \<open>
  C5. For every colour of the table and every brightness \<open>b\<close> from 0 to 100, stored as
  \<open>main\<close> stores it: when \<open>b > 0\<close> byte 6 is the colour's id; when \<open>b = 0\<close> byte 6 is
  the off sentinel 5 and byte 5 is 0.
\<close>

theorem effective_color:
  "(name, cid) \<in> set COLORS \<Longrightarrow> 0 \<le> b \<Longrightarrow> b \<le> 100 \<Longrightarrow>
     color_id_from_name name = cid
     \<and> (0 < b \<longrightarrow> build_pkt cid (word_of_int b) ! 6 = cid)
     \<and> (b = 0 \<longrightarrow> build_pkt cid (word_of_int b) ! 6 = word_of_int COLOR_ID_OFF
                  \<and> COLOR_ID_OFF = 5 \<and> build_pkt cid (word_of_int b) ! 5 = 0)"
  using brightness_cast [of b]
  by (auto simp: build_pkt_bytes color_ids COLOR_ID_OFF_def)

theorem effective_color_witness:
  "(''purple'', 6) \<in> set COLORS \<and> (0 :: int) < 30 \<and> (30 :: int) \<le> 100
   \<and> build_pkt 6 (word_of_int 30) ! 6 = 6
   \<and> build_pkt 6 (word_of_int 0) ! 6 = word_of_int COLOR_ID_OFF
   \<and> build_pkt 6 (word_of_int 0) ! 5 = 0"
proof -
  have c: "(''purple'', 6) \<in> set COLORS"
    by (simp add: COLORS_def)
  have b: "(0 :: int) \<le> 30" "(30 :: int) \<le> 100" "(0 :: int) < 30" "(0 :: int) \<le> 0"
    "(0 :: int) \<le> 100"
    by simp_all
  from effective_color [OF c b(1) b(2)] b(3)
  have lit: "build_pkt 6 (word_of_int 30) ! 6 = 6"
    by blast
  from effective_color [OF c b(4) b(5)]
  have off: "build_pkt 6 (word_of_int 0) ! 6 = word_of_int COLOR_ID_OFF"
    "build_pkt 6 (word_of_int 0) ! 5 = 0"
    by blast+
  from c b(3) b(2) lit off show ?thesis
    by (intro conjI)
qed

text \<open>
  C6. For every brightness \<open>b\<close> from 0 to 100, byte 5 of the packet is \<open>b\<close> divided by 2,
  rounded down; brightness 0 gives 0, 100 gives 50 and 1 gives 0.
\<close>

theorem brightness_byte:
  "0 \<le> b \<Longrightarrow> b \<le> 100 \<Longrightarrow>
     uint (build_pkt cid (word_of_int b) ! 5) = b div 2
     \<and> build_pkt cid 0 ! 5 = 0 \<and> build_pkt cid 100 ! 5 = 50 \<and> build_pkt cid 1 ! 5 = 0"
  by (simp add: build_pkt_bytes uint_div brightness_cast)

theorem brightness_byte_witness:
  "(0 :: int) \<le> 37 \<and> (37 :: int) \<le> 100 \<and> uint (build_pkt 4 37 ! 5) = 18"
  using brightness_byte [of 37 4] by simp

text \<open>
  C7. Discovery opens the node of a directory entry, and sends the packet to it, only
  when some line of the entry's descriptor has the bus, vendor and product identity and
  some line has the interface label. The two flags do not depend on the order of the
  descriptor's lines. An entry without both facts leaves no trace and the scan goes on
  with the remaining entries.
\<close>

theorem discovery_needs_both_facts:
  "(scan_dir pkt es w = (ok, w') \<longrightarrow>
      (\<forall>n b. OpenDev n b \<in> set (trace w') \<longrightarrow> OpenDev n b \<in> set (trace w)
          \<or> (\<exists>e \<in> set es. d_name e = n \<and> accepted e))
    \<and> (\<forall>n p r. SetFeature n p r \<in> set (trace w') \<longrightarrow> SetFeature n p r \<in> set (trace w)
          \<or> (\<exists>e \<in> set es. d_name e = n \<and> accepted e)))
   \<and> ((\<forall>l \<in> set ls. proper_line l) \<and> mset ls' = mset ls \<longrightarrow>
        scan_lines ls' = scan_lines ls \<and> scan_uevent (concat ls') = scan_uevent (concat ls))
   \<and> (\<not> accepted e \<longrightarrow> scan_dir pkt (e # es) w = scan_dir pkt es w)"
proof (intro conjI impI allI)
  fix n b
  assume "scan_dir pkt es w = (ok, w')" and in_tr: "OpenDev n b \<in> set (trace w')"
  from scan_dir_trace [OF this(1)] obtain evs where
    "trace w' = trace w @ evs" "\<forall>ev \<in> set evs. dev_event pkt es ev"
    by blast
  with in_tr have "OpenDev n b \<in> set (trace w) \<or> dev_event pkt es (OpenDev n b)"
    by auto
  then show "OpenDev n b \<in> set (trace w) \<or> (\<exists>e \<in> set es. d_name e = n \<and> accepted e)"
    by (auto simp: dev_event_def)
next
  fix n p r
  assume "scan_dir pkt es w = (ok, w')" and in_tr: "SetFeature n p r \<in> set (trace w')"
  from scan_dir_trace [OF this(1)] obtain evs where
    "trace w' = trace w @ evs" "\<forall>ev \<in> set evs. dev_event pkt es ev"
    by blast
  with in_tr have "SetFeature n p r \<in> set (trace w) \<or> dev_event pkt es (SetFeature n p r)"
    by auto
  then show "SetFeature n p r \<in> set (trace w) \<or> (\<exists>e \<in> set es. d_name e = n \<and> accepted e)"
    by (auto simp: dev_event_def)
next
  assume a: "(\<forall>l \<in> set ls. proper_line l) \<and> mset ls' = mset ls"
  then have "set ls' = set ls" by (auto dest: mset_eq_setD)
  then show "scan_lines ls' = scan_lines ls" by (simp add: scan_lines_flags)
  from a show "scan_uevent (concat ls') = scan_uevent (concat ls)"
    by (simp add: scan_uevent_reorder)
next
  assume "\<not> accepted e"
  then show "scan_dir pkt (e # es) w = scan_dir pkt es w" by (rule scan_dir_skip)
qed

theorem discovery_needs_both_facts_witness:
  "\<not> accepted \<lparr>d_name = ''hidraw0'', uevent = Some (line_hid_id @ line_input0),
                dev_open = True, ioctl_ret = 9\<rparr>
   \<and> scan_dir (build_pkt 4 50) (aorus_dir 9) (aorus_world None 9)
       = scan_dir (build_pkt 4 50) (tl (aorus_dir 9)) (aorus_world None 9)
   \<and> OpenDev ''hidraw1'' True
       \<in> set (trace (snd (scan_dir (build_pkt 4 50) (tl (aorus_dir 9)) (aorus_world None 9))))
   \<and> OpenDev ''hidraw1'' True \<notin> set (trace (aorus_world None 9))
   \<and> (\<exists>e \<in> set (tl (aorus_dir 9)). d_name e = ''hidraw1'' \<and> accepted e)
   \<and> proper_line line_input3
   \<and> proper_line line_hid_id
   \<and> mset [line_hid_id, line_input3] = mset [line_input3, line_hid_id]
   \<and> scan_uevent (concat [line_hid_id, line_input3])
       = scan_uevent (concat [line_input3, line_hid_id])"
proof -
  let ?pkt = "build_pkt 4 50"
  let ?e0 = "\<lparr>d_name = ''hidraw0'', uevent = Some (line_hid_id @ line_input0),
              dev_open = True, ioctl_ret = 9\<rparr>"
  let ?e1 = "\<lparr>d_name = ''hidraw1'', uevent = Some (line_input3 @ line_hid_id),
              dev_open = True, ioctl_ret = 9\<rparr>"
  let ?w = "aorus_world None 9"
  let ?r = "scan_dir ?pkt [?e1] ?w"
  have tail: "tl (aorus_dir 9) = [?e1]"
    by (simp only: list.sel)
  have rej: "\<not> accepted ?e0"
    by (rule example_accepted)
  have "?r = (True, ?w\<lparr>trace := trace ?w @ [OpenDev ''hidraw1'' True,
                                             SetFeature ''hidraw1'' ?pkt 9]\<rparr>)"
    by (simp add: scan_dir_accept example_accepted PKT_SIZE_def
        del: scan_dir.simps(2) append.simps)
  then have opened: "OpenDev ''hidraw1'' True \<in> set (trace (snd ?r))"
    by simp
  have fresh: "OpenDev ''hidraw1'' True \<notin> set (trace ?w)"
    by simp
  have run: "?r = (fst ?r, snd ?r)"
    by (simp only: prod.collapse)
  have lines: "(\<forall>l \<in> set [line_input3, line_hid_id]. proper_line l)"
    by (simp add: example_proper)
  have perm: "mset [line_hid_id, line_input3] = mset [line_input3, line_hid_id]"
    by (simp add: add_mset_commute)
  note inst = discovery_needs_both_facts [of ?pkt "[?e1]" ?w "fst ?r" "snd ?r"
      "[line_input3, line_hid_id]" "[line_hid_id, line_input3]" ?e0]
  note origin = inst [THEN conjunct1, THEN mp, OF run, THEN conjunct1, rule_format, OF opened]
  note order = inst [THEN conjunct2, THEN conjunct1, THEN mp, OF conjI [OF lines perm],
      THEN conjunct2]
  note skipped = inst [THEN conjunct2, THEN conjunct2, THEN mp, OF rej]
  from origin fresh have found: "\<exists>e \<in> set [?e1]. d_name e = ''hidraw1'' \<and> accepted e"
    by (rule excluded_left)
  from rej skipped opened fresh found example_proper(2) example_proper(1) perm order
  show ?thesis
    unfolding tail by (intro conjI)
qed

text \<open>
  C8 (as amended). \<open>load_state\<close> is a total function: it returns a setting for every
  world. When the state file cannot be opened, or delivers no byte at all (it is empty,
  or reading it fails), the setting is the default: the id of white, the last entry of
  the table, which is 7, and brightness 100.
\<close>

theorem load_state_default:
  "state_file w = None \<or> state_file w = Some [] \<Longrightarrow>
     load_state w = \<lparr>color_id = color_id_from_name ''white'', brightness = 100\<rparr>
     \<and> color_id_from_name ''white'' = 7 \<and> fst (last COLORS) = ''white''"
  by (auto simp: load_state_def fread_State_def COLORS_def COLOR_COUNT_def BRIGHTNESS_MAX_def
      color_id_from_name_def)

theorem load_state_default_witness:
  "state_file (aorus_world None 9) = None
   \<and> load_state (aorus_world None 9)
       = \<lparr>color_id = color_id_from_name ''white'', brightness = 100\<rparr>
   \<and> state_file (aorus_world (Some []) 9) = Some []
   \<and> load_state (aorus_world (Some []) 9)
       = \<lparr>color_id = color_id_from_name ''white'', brightness = 100\<rparr>"
proof -
  have absent: "state_file (aorus_world None 9) = None"
    and empty: "state_file (aorus_world (Some []) 9) = Some []"
    by simp_all
  note a = load_state_default [OF disjI1 [OF absent], THEN conjunct1]
  note b = load_state_default [OF disjI2 [OF empty], THEN conjunct1]
  from absent a empty b show ?thesis
    by (intro conjI)
qed

text \<open>
  C8, as stated, fails on a state file of one byte: the byte becomes the colour id, and
  only the brightness keeps its default.
\<close>

theorem load_state_short_counterexample:
  "load_state \<lparr>state_file = Some [3], state_writable = True, hidraw_dir = None, trace = []\<rparr>
     = \<lparr>color_id = 3, brightness = 100\<rparr>
   \<and> load_state \<lparr>state_file = Some [3], state_writable = True, hidraw_dir = None, trace = []\<rparr>
     \<noteq> \<lparr>color_id = 7, brightness = 100\<rparr>"
  by (simp add: load_state_def fread_State_def COLORS_def COLOR_COUNT_def BRIGHTNESS_MAX_def)

text \<open>
  C9. A run of the program that starts with an empty trace changes the state file only
  by a save, and saves only after a transfer that returned the full packet size: when
  the exit status is not 0, the state file is unchanged and no save was made; an exit
  status 0 comes from \<^verbatim>\<open>--list\<close> or after such a transfer; and a save of colour \<open>c\<close>
  and brightness \<open>b\<close> follows the transfer of their packet and leaves the state file
  as exactly the two bytes \<open>c\<close>, \<open>b\<close>, or untouched when it cannot be opened for
  writing.
\<close>

theorem state_saved_only_after_transfer:
  "main argv w = (rc, w') \<Longrightarrow> trace w = [] \<Longrightarrow>
     (rc \<noteq> 0 \<longrightarrow> state_file w' = state_file w \<and> (\<forall>c b. SaveState c b \<notin> set (trace w')))
   \<and> (rc = 0 \<longrightarrow> argv ! 1 = ''--list'' \<or> (\<exists>n p. SetFeature n p (int PKT_SIZE) \<in> set (trace w')))
   \<and> (\<forall>c b. SaveState c b \<in> set (trace w') \<longrightarrow>
         rc = 0 \<and> (\<exists>n. SetFeature n (build_pkt c b) (int PKT_SIZE) \<in> set (trace w'))
         \<and> (if state_writable w then state_file w' = Some [c, b]
            else state_file w' = state_file w))
   \<and> (state_file w' \<noteq> state_file w \<longrightarrow>
         (\<exists>c b. SaveState c b \<in> set (trace w') \<and> state_file w' = Some [c, b]))"
proof -
  assume run: "main argv w = (rc, w')" and fresh: "trace w = []"
  from run show ?thesis
  proof (cases rule: main_run)
    case invalid
    with fresh show ?thesis by simp
  next
    case list
    with fresh show ?thesis by simp
  next
    case (failed s w1 r)
    from send_packet_effect [OF failed(2)] fresh obtain evs where
      "state_file w1 = state_file w" "trace w1 = evs"
      "\<forall>ev \<in> set evs. dev_event (build_pkt (color_id s) (brightness s)) (entries w) ev"
      by auto
    with failed show ?thesis
      by (auto simp: dev_event_SaveState)
  next
    case (sent s w1 r)
    let ?pkt = "build_pkt (color_id s) (brightness s)"
    from send_packet_effect [OF sent(2)] fresh sent(3) obtain evs n where
      ev: "state_file w1 = state_file w" "state_writable w1 = state_writable w" "trace w1 = evs"
      "\<forall>ev \<in> set evs. dev_event ?pkt (entries w) ev"
      "SetFeature n ?pkt (int PKT_SIZE) \<in> set evs"
      by auto
    have tr: "trace w' = evs @ [SaveState (color_id s) (brightness s)]"
      and sf: "state_file w' = (if state_writable w then Some [color_id s, brightness s] else state_file w)"
      using sent(5) ev by (simp_all add: save_state_effect)
    have only: "SaveState c b \<in> set (trace w') \<Longrightarrow> c = color_id s \<and> b = brightness s" for c b
      using tr ev(4) by (auto simp: dev_event_SaveState)
    show ?thesis
    proof (intro conjI impI allI)
      show "state_file w' = state_file w" if "rc \<noteq> 0" using that sent(4) by simp
      show "SaveState c b \<notin> set (trace w')" if "rc \<noteq> 0" for c b using that sent(4) by simp
      show "argv ! 1 = ''--list'' \<or> (\<exists>n p. SetFeature n p (int PKT_SIZE) \<in> set (trace w'))"
        using tr ev(5) by auto
      show "rc = 0" if "SaveState c b \<in> set (trace w')" for c b by (rule sent(4))
      show "\<exists>n. SetFeature n (build_pkt c b) (int PKT_SIZE) \<in> set (trace w')"
        if "SaveState c b \<in> set (trace w')" for c b
        using only [OF that] tr ev(5) by auto
      show "if state_writable w then state_file w' = Some [c, b] else state_file w' = state_file w"
        if "SaveState c b \<in> set (trace w')" for c b
        using only [OF that] sf by simp
      show "\<exists>c b. SaveState c b \<in> set (trace w') \<and> state_file w' = Some [c, b]"
        if "state_file w' \<noteq> state_file w"
        using that tr sf by (auto split: if_splits)
    qed
  qed
qed

theorem state_saved_only_after_transfer_witness:
  "trace (aorus_world (Some [4, 50]) (- 1)) = []
   \<and> fst (main [''kb-color'', ''-b'', ''0''] (aorus_world (Some [4, 50]) (- 1))) \<noteq> 0
   \<and> state_file (snd (main [''kb-color'', ''-b'', ''0''] (aorus_world (Some [4, 50]) (- 1))))
       = state_file (aorus_world (Some [4, 50]) (- 1))
   \<and> SaveState 4 0
       \<notin> set (trace (snd (main [''kb-color'', ''-b'', ''0''] (aorus_world (Some [4, 50]) (- 1)))))
   \<and> trace (aorus_world None 9) = []
   \<and> SaveState 4 50
       \<in> set (trace (snd (main [''kb-color'', ''--color'', ''blue'', ''--brightness'', ''50'']
                             (aorus_world None 9))))
   \<and> fst (main [''kb-color'', ''--color'', ''blue'', ''--brightness'', ''50'']
            (aorus_world None 9)) = 0
   \<and> (\<exists>n. SetFeature n (build_pkt 4 50) (int PKT_SIZE)
         \<in> set (trace (snd (main [''kb-color'', ''--color'', ''blue'', ''--brightness'', ''50'']
                               (aorus_world None 9)))))
   \<and> state_file (snd (main [''kb-color'', ''--color'', ''blue'', ''--brightness'', ''50'']
                         (aorus_world None 9))) = Some [4, 50]"
proof -
  let ?bad = "main [''kb-color'', ''-b'', ''0''] (aorus_world (Some [4, 50]) (- 1))"
  let ?good = "main [''kb-color'', ''--color'', ''blue'', ''--brightness'', ''50'']
                 (aorus_world None 9)"
  have fresh_bad: "trace (aorus_world (Some [4, 50]) (- 1)) = []"
    and fresh_good: "trace (aorus_world None 9) = []"
    and wr: "state_writable (aorus_world None 9)"
    by simp_all
  have rc_bad: "fst ?bad \<noteq> 0"
    by (simp only: example_dim_refused fst_conv)
  have saved: "SaveState 4 50 \<in> set (trace (snd ?good))"
    by (simp only: example_blue_50 snd_conv) simp
  have run_bad: "?bad = (fst ?bad, snd ?bad)" and run_good: "?good = (fst ?good, snd ?good)"
    by (simp_all only: prod.collapse)
  note bad = state_saved_only_after_transfer [OF run_bad fresh_bad, THEN conjunct1, THEN mp,
      OF rc_bad]
  note good = state_saved_only_after_transfer [OF run_good fresh_good, THEN conjunct2,
      THEN conjunct2, THEN conjunct1, rule_format, OF saved]
  from good [THEN conjunct2, THEN conjunct2] wr
  have written: "state_file (snd ?good) = Some [4, 50]"
    by (simp only: if_True)
  from fresh_bad rc_bad bad [THEN conjunct1] bad [THEN conjunct2, rule_format, of 4 0]
    fresh_good saved good [THEN conjunct1] good [THEN conjunct2, THEN conjunct1] written
  show ?thesis
    by (intro conjI)
qed

text \<open>
  C10. For every colour id and brightness, the nine bytes of the packet add up, in 8-bit
  arithmetic, to 0xFF and not to 0, because byte 8 is 0xFF minus the 8-bit sum of
  bytes 0 to 7.
\<close>

theorem packet_sum_invariant:
  "length (build_pkt cid br) = PKT_SIZE
   \<and> build_pkt cid br ! 8 = 0xFF - sum_list (take PKT_CHECKSUM_BYTES (build_pkt cid br))
   \<and> sum_list (build_pkt cid br) = 0xFF
   \<and> sum_list (build_pkt cid br) \<noteq> 0"
  by (simp add: build_pkt_bytes PKT_SIZE_def PKT_CHECKSUM_BYTES_def)

end
